theory Spec2Isabelle
  imports Main
begin

section \<open>Data model of the OpenVault store\<close>

text \<open>
  The store is the JSON document kept in the chat metadata (\<^verbatim>\<open>src/utils/data.js\<close>,
  \<^verbatim>\<open>getOpenVaultData\<close>). Its objects are loosely typed; the model gives every field the
  type the code reads it at:
  \<^item> a field the code guards with \<^verbatim>\<open>typeof x === 'number'\<close> is a \<open>js_value\<close>, a number
    or something else;
  \<^item> a field the code guards with a truthiness test or with \<^verbatim>\<open>|| []\<close>, \<^verbatim>\<open>|| {}\<close> is an
    \<open>option\<close>, \<open>None\<close> standing for the absent field (for \<open>known_events\<close> and \<open>history\<close>
    also for a value that is not an array);
  \<^item> an object iterated with \<^verbatim>\<open>Object.entries\<close> is an association list in iteration order.
  Numbers are the message indices of the transcript, so they are integers (the fractions,
  \<^verbatim>\<open>NaN\<close> and the infinities of a JavaScript number are outside the model); the length
  of the chat array is a natural number. Fields the function never reads are left out. The store holds plain data, as it comes back from the
  persisted JSON: two entries never share one object.
\<close>

datatype js_value = JUndefined | JNull | JBool bool | JNumber int | JString string

record memory =
  memory_id :: string
  summary :: "string option"
  message_ids :: "int list option"

record emotion_range =
  min_msg :: int
  max_msg :: int

record character_state =
  known_events :: "string list option"
  emotion_from_messages :: "emotion_range option"

record history_entry =
  message_id :: js_value

record relationship =
  last_updated_message_id :: js_value
  history :: "history_entry list option"

record store =
  memories :: "memory list option"
  characters :: "(string \<times> character_state) list option"
  relationships :: "(string \<times> relationship) list option"
  last_processed_message_id :: js_value

record prune_report =
  prunedMemories :: nat
  prunedCharacterEvents :: nat
  prunedRelationships :: nat

definition zero_report :: prune_report where
  "zero_report = \<lparr>prunedMemories = 0, prunedCharacterEvents = 0, prunedRelationships = 0\<rparr>"

section \<open>The pruning pass\<close>

text \<open>
  Lines 128--130: \<^verbatim>\<open>const messageIds = memory.message_ids || []\<close> and
  \<^verbatim>\<open>messageIds.some(id => id >= chatLength)\<close>.
\<close>

definition hasInvalidMessageId :: "nat \<Rightarrow> memory \<Rightarrow> bool" where
  "hasInvalidMessageId chatLength m =
     (let messageIds = (case message_ids m of None \<Rightarrow> [] | Some ids \<Rightarrow> ids)
      in list_ex (\<lambda>i. int chatLength \<le> i) messageIds)"

text \<open>
  Lines 124--139, the loop over the memories. The accumulator is the triple of the loop's
  variables \<^verbatim>\<open>validMemories\<close>, \<^verbatim>\<open>prunedMemoryIds\<close> (a \<^verbatim>\<open>Set\<close>) and \<^verbatim>\<open>prunedMemories\<close>.
\<close>

fun scanMemories ::
  "nat \<Rightarrow> memory list \<Rightarrow> memory list \<times> string set \<times> nat \<Rightarrow> memory list \<times> string set \<times> nat"
where
  "scanMemories chatLength [] acc = acc"
| "scanMemories chatLength (m # rest) (validMemories, prunedMemoryIds, countMemories) =
     (if hasInvalidMessageId chatLength m
      then scanMemories chatLength rest
             (validMemories, insert (memory_id m) prunedMemoryIds, countMemories + 1)
      else scanMemories chatLength rest
             (validMemories @ [m], prunedMemoryIds, countMemories))"

text \<open>
  Lines 149--157: the \<^verbatim>\<open>known_events\<close> of one character state are filtered against the
  pruned ids; the result is the new state and \<^verbatim>\<open>removed\<close>.
\<close>

definition cleanKnownEvents :: "string set \<Rightarrow> character_state \<Rightarrow> character_state \<times> nat" where
  "cleanKnownEvents prunedMemoryIds state =
     (case known_events state of
        None \<Rightarrow> (state, 0)
      | Some events \<Rightarrow>
          (let originalLength = length events;
               kept = filter (\<lambda>eventId. eventId \<notin> prunedMemoryIds) events
           in (state\<lparr>known_events := Some kept\<rparr>, originalLength - length kept)))"

text \<open>Lines 160--170: the emotion range of one character state is deleted or clamped.\<close>

definition cleanEmotion :: "nat \<Rightarrow> character_state \<Rightarrow> character_state" where
  "cleanEmotion chatLength state =
     (case emotion_from_messages state of
        None \<Rightarrow> state
      | Some e \<Rightarrow>
          if int chatLength \<le> max_msg e then
            (if int chatLength \<le> min_msg e
             then state\<lparr>emotion_from_messages := None\<rparr>
             else state\<lparr>emotion_from_messages := Some (e\<lparr>max_msg := int chatLength - 1\<rparr>)\<rparr>)
          else state)"

text \<open>
  Lines 148--171, the loop over the character states, threading \<^verbatim>\<open>prunedCharacterEvents\<close>.
\<close>

fun cleanCharacters ::
  "nat \<Rightarrow> string set \<Rightarrow> (string \<times> character_state) list \<Rightarrow> nat
     \<Rightarrow> (string \<times> character_state) list \<times> nat"
where
  "cleanCharacters chatLength prunedMemoryIds [] countEvents = ([], countEvents)"
| "cleanCharacters chatLength prunedMemoryIds ((charName, state) # rest) countEvents =
     (let (state1, removed) = cleanKnownEvents prunedMemoryIds state;
          countEvents1 = (if removed > 0 then countEvents + removed else countEvents);
          state2 = cleanEmotion chatLength state1;
          (rest', countEvents2) = cleanCharacters chatLength prunedMemoryIds rest countEvents1
      in ((charName, state2) # rest', countEvents2))"

text \<open>
  Lines 176--182 and 193--196 reset a cursor with the same expression,
  \<^verbatim>\<open>chatLength > 0 ? chatLength - 1 : -1\<close>, under the same test.
\<close>

definition isBeyond :: "nat \<Rightarrow> js_value \<Rightarrow> bool" where
  "isBeyond chatLength v =
     (case v of JNumber n \<Rightarrow> int chatLength \<le> n | _ \<Rightarrow> False)"

definition resetValue :: "nat \<Rightarrow> js_value" where
  "resetValue chatLength = JNumber (if chatLength > 0 then int chatLength - 1 else - 1)"

text \<open>
  Lines 185--189: \<^verbatim>\<open>typeof h.message_id !== 'number' || h.message_id < chatLength\<close>.
\<close>

definition keepHistoryEntry :: "nat \<Rightarrow> history_entry \<Rightarrow> bool" where
  "keepHistoryEntry chatLength h =
     (case message_id h of JNumber n \<Rightarrow> n < int chatLength | _ \<Rightarrow> True)"

definition cleanHistory :: "nat \<Rightarrow> relationship \<Rightarrow> relationship" where
  "cleanHistory chatLength r =
     (case history r of
        None \<Rightarrow> r
      | Some entries \<Rightarrow> r\<lparr>history := Some (filter (keepHistoryEntry chatLength) entries)\<rparr>)"

text \<open>
  Lines 175--190, the loop over the relationships, threading \<^verbatim>\<open>prunedRelationships\<close>.
\<close>

fun cleanRelationships ::
  "nat \<Rightarrow> (string \<times> relationship) list \<Rightarrow> nat \<Rightarrow> (string \<times> relationship) list \<times> nat"
where
  "cleanRelationships chatLength [] countRels = ([], countRels)"
| "cleanRelationships chatLength ((key, r) # rest) countRels =
     (let (r1, countRels1) =
            (if isBeyond chatLength (last_updated_message_id r)
             then (r\<lparr>last_updated_message_id := resetValue chatLength\<rparr>, countRels + 1)
             else (r, countRels));
          r2 = cleanHistory chatLength r1;
          (rest', countRels2) = cleanRelationships chatLength rest countRels1
      in ((key, r2) # rest', countRels2))"

text \<open>
  \<^verbatim>\<open>pruneMemoriesForBranch\<close>, lines 102--198. The collaborators behind \<^verbatim>\<open>getDeps()\<close> are
  not part of the file: \<open>chatLength\<close> is the length of the chat array they hand out (line 105)
  and \<open>data\<close> the store \<^verbatim>\<open>getOpenVaultData\<close> returns (line 107). The function mutates the
  store in place; the model returns the report together with the store after the call.
  The calls of \<^verbatim>\<open>log\<close> write to the console only and are left out.
\<close>

definition pruneMemoriesForBranch :: "nat \<Rightarrow> store \<Rightarrow> prune_report \<times> store" where
  "pruneMemoriesForBranch chatLength data =
     (let mems = (case memories data of None \<Rightarrow> [] | Some ms \<Rightarrow> ms) in
      if chatLength = 0 \<or> length mems = 0 then (zero_report, data)
      else
        (let (validMemories, prunedMemoryIds, countMemories) =
               scanMemories chatLength mems ([], {}, 0);
             data1 = (if countMemories > 0 then data\<lparr>memories := Some validMemories\<rparr> else data);
             (data2, countEvents) =
               (case characters data1 of
                  None \<Rightarrow> (data1, 0)
                | Some characterStates \<Rightarrow>
                    (let (cs, n) = cleanCharacters chatLength prunedMemoryIds characterStates 0
                     in (data1\<lparr>characters := Some cs\<rparr>, n)));
             (data3, countRels) =
               (case relationships data2 of
                  None \<Rightarrow> (data2, 0)
                | Some rels \<Rightarrow>
                    (let (rs, n) = cleanRelationships chatLength rels 0
                     in (data2\<lparr>relationships := Some rs\<rparr>, n)));
             data4 =
               (if isBeyond chatLength (last_processed_message_id data3)
                then data3\<lparr>last_processed_message_id := resetValue chatLength\<rparr>
                else data3)
         in (\<lparr>prunedMemories = countMemories,
              prunedCharacterEvents = countEvents,
              prunedRelationships = countRels\<rparr>, data4)))"

section \<open>Vocabulary of the properties\<close>

text \<open>
  The ids of the memories of a store and the ids its character states refer to, in store
  order. They serve to state referential integrity of \<open>known_events\<close>.
\<close>

definition memoryIds :: "store \<Rightarrow> string list" where
  "memoryIds data = (case memories data of None \<Rightarrow> [] | Some ms \<Rightarrow> map memory_id ms)"

definition knownEventIds :: "store \<Rightarrow> string list" where
  "knownEventIds data =
     (case characters data of
        None \<Rightarrow> []
      | Some cs \<Rightarrow>
          concat (map (\<lambda>(charName, state).
                         case known_events state of None \<Rightarrow> [] | Some events \<Rightarrow> events) cs))"

section \<open>Example stores\<close>

definition mem_a :: memory where
  "mem_a = \<lparr>memory_id = ''a'', summary = None, message_ids = Some [0, 1]\<rparr>"

definition mem_b :: memory where
  "mem_b = \<lparr>memory_id = ''b'', summary = None, message_ids = Some [2, 9]\<rparr>"

definition mem_c :: memory where
  "mem_c = \<lparr>memory_id = ''c'', summary = Some ''door'', message_ids = Some [0, 5]\<rparr>"

definition mem_d :: memory where
  "mem_d = \<lparr>memory_id = ''d'', summary = None, message_ids = None\<rparr>"

definition mem_e :: memory where
  "mem_e = \<lparr>memory_id = ''e'', summary = None, message_ids = Some []\<rparr>"

text \<open>
  The end-to-end scenario of the specification, with an emotion range and a history added:
  two memories, Alice knowing both, one relationship, both cursors at 9.
\<close>

definition store_scenario :: store where
  "store_scenario =
     \<lparr>memories = Some [mem_a, mem_b],
      characters = Some [(''Alice'',
         \<lparr>known_events = Some [''a'', ''b''],
          emotion_from_messages = Some \<lparr>min_msg = 1, max_msg = 9\<rparr>\<rparr>)],
      relationships = Some [(''Alice-Bob'',
         \<lparr>last_updated_message_id = JNumber 9,
          history = Some [\<lparr>message_id = JNumber 1\<rparr>, \<lparr>message_id = JNumber 9\<rparr>]\<rparr>)],
      last_processed_message_id = JNumber 9\<rparr>"

definition store_ids :: store where
  "store_ids =
     \<lparr>memories = Some [mem_a, mem_c, mem_d],
      characters = None, relationships = None,
      last_processed_message_id = JNumber (- 1)\<rparr>"

definition store_no_ids :: store where
  "store_no_ids =
     \<lparr>memories = Some [mem_c, mem_d, mem_e],
      characters = None, relationships = None,
      last_processed_message_id = JNumber (- 1)\<rparr>"

definition store_cursor :: store where
  "store_cursor =
     \<lparr>memories = Some [mem_a],
      characters = None, relationships = None,
      last_processed_message_id = JNumber 10\<rparr>"

definition store_no_memories :: store where
  "store_no_memories =
     \<lparr>memories = Some [],
      characters = None, relationships = None,
      last_processed_message_id = JNumber 10\<rparr>"

definition store_uncounted :: store where
  "store_uncounted =
     \<lparr>memories = Some [mem_a],
      characters = Some [(''Alice'',
         \<lparr>known_events = Some [''a''],
          emotion_from_messages = Some \<lparr>min_msg = 0, max_msg = 7\<rparr>\<rparr>)],
      relationships = Some [(''Alice-Bob'',
         \<lparr>last_updated_message_id = JNumber 1,
          history = Some [\<lparr>message_id = JNumber 8\<rparr>]\<rparr>)],
      last_processed_message_id = JNumber 10\<rparr>"

definition store_settled :: store where
  "store_settled =
     \<lparr>memories = Some [mem_a],
      characters = Some [(''Alice'',
         \<lparr>known_events = Some [''a''],
          emotion_from_messages = Some \<lparr>min_msg = 0, max_msg = 1\<rparr>\<rparr>)],
      relationships = Some [(''Alice-Bob'',
         \<lparr>last_updated_message_id = JNumber 1,
          history = Some [\<lparr>message_id = JNumber 0\<rparr>]\<rparr>)],
      last_processed_message_id = JNumber 1\<rparr>"

definition store_dangling :: store where
  "store_dangling =
     \<lparr>memories = Some [mem_a],
      characters = Some [(''Alice'',
         \<lparr>known_events = Some [''a'', ''x''], emotion_from_messages = None\<rparr>)],
      relationships = None,
      last_processed_message_id = JNumber 0\<rparr>"

definition store_mixed :: store where
  "store_mixed =
     \<lparr>memories = Some [mem_a, mem_b],
      characters = Some
        [(''Alice'', \<lparr>known_events = Some [''b'', ''x'', ''a''], emotion_from_messages = None\<rparr>),
         (''Bob'', \<lparr>known_events = None, emotion_from_messages = None\<rparr>)],
      relationships = None,
      last_processed_message_id = JNumber 0\<rparr>"

definition store_emotions :: store where
  "store_emotions =
     \<lparr>memories = Some [mem_a],
      characters = Some
        [(''Alice'', \<lparr>known_events = None,
                     emotion_from_messages = Some \<lparr>min_msg = 3, max_msg = 7\<rparr>\<rparr>),
         (''Bob'', \<lparr>known_events = None,
                   emotion_from_messages = Some \<lparr>min_msg = 6, max_msg = 7\<rparr>\<rparr>)],
      relationships = None,
      last_processed_message_id = JNumber 0\<rparr>"

definition store_history :: store where
  "store_history =
     \<lparr>memories = Some [mem_a],
      characters = None,
      relationships = Some
        [(''Alice-Bob'',
          \<lparr>last_updated_message_id = JNumber 2,
           history = Some [\<lparr>message_id = JNumber 2\<rparr>, \<lparr>message_id = JNumber 3\<rparr>,
                           \<lparr>message_id = JUndefined\<rparr>, \<lparr>message_id = JString ''7''\<rparr>]\<rparr>),
         (''Bob-Eve'',
          \<lparr>last_updated_message_id = JNumber 3, history = None\<rparr>)],
      last_processed_message_id = JNumber 0\<rparr>"

section \<open>Properties\<close>

subsection \<open>The pass in closed form\<close>

lemma scanMemories_eq:
  "scanMemories L ms (v, p, n) =
     (v @ filter (\<lambda>m. \<not> hasInvalidMessageId L m) ms,
      p \<union> memory_id ` {m \<in> set ms. hasInvalidMessageId L m},
      n + length (filter (hasInvalidMessageId L) ms))"
  by (induction ms arbitrary: v p n) auto

lemma cleanCharacters_eq:
  "cleanCharacters L P cs n =
     (map (\<lambda>(k, st). (k, cleanEmotion L (fst (cleanKnownEvents P st)))) cs,
      n + sum_list (map (\<lambda>(k, st). snd (cleanKnownEvents P st)) cs))"
  by (induction cs arbitrary: n) (auto simp: Let_def split: prod.splits)

lemma cleanRelationships_eq:
  "cleanRelationships L rs n =
     (map (\<lambda>(k, r). (k, cleanHistory L
             (if isBeyond L (last_updated_message_id r)
              then r\<lparr>last_updated_message_id := resetValue L\<rparr> else r))) rs,
      n + length (filter (\<lambda>(k, r). isBeyond L (last_updated_message_id r)) rs))"
  by (induction rs arbitrary: n) (auto simp: Let_def split: prod.splits)

lemma filter_valid_unchanged:
  "length (filter (hasInvalidMessageId L) ms) = 0
     \<Longrightarrow> filter (\<lambda>m. \<not> hasInvalidMessageId L m) ms = ms"
  by (induction ms) (auto split: if_splits)

text \<open>
  The whole pass in closed form, once the short-circuit is passed. The memories are written
  back only when something was pruned; when nothing was, the filtered list is the old one.
\<close>

lemma prune_unfold:
  assumes "0 < L" "memories S = Some ms" "ms \<noteq> []"
  shows "pruneMemoriesForBranch L S =
     (\<lparr>prunedMemories = length (filter (hasInvalidMessageId L) ms),
       prunedCharacterEvents =
         (case characters S of None \<Rightarrow> 0
          | Some cs \<Rightarrow> sum_list (map (\<lambda>(k, st). snd (cleanKnownEvents
               (memory_id ` {m \<in> set ms. hasInvalidMessageId L m}) st)) cs)),
       prunedRelationships =
         (case relationships S of None \<Rightarrow> 0
          | Some rs \<Rightarrow> length (filter (\<lambda>(k, r). isBeyond L (last_updated_message_id r)) rs))\<rparr>,
      S\<lparr>memories := Some (filter (\<lambda>m. \<not> hasInvalidMessageId L m) ms),
        characters := map_option (map (\<lambda>(k, st). (k, cleanEmotion L (fst (cleanKnownEvents
               (memory_id ` {m \<in> set ms. hasInvalidMessageId L m}) st))))) (characters S),
        relationships := map_option (map (\<lambda>(k, r). (k, cleanHistory L
             (if isBeyond L (last_updated_message_id r)
              then r\<lparr>last_updated_message_id := resetValue L\<rparr> else r)))) (relationships S),
        last_processed_message_id :=
          (if isBeyond L (last_processed_message_id S) then resetValue L
           else last_processed_message_id S)\<rparr>)"
  using assms
  by (auto simp: pruneMemoriesForBranch_def scanMemories_eq cleanCharacters_eq
        cleanRelationships_eq filter_valid_unchanged Let_def split: option.splits)

lemma prune_short_circuit:
  "L = 0 \<or> memories S = None \<or> memories S = Some []
     \<Longrightarrow> pruneMemoriesForBranch L S = (zero_report, S)"
  by (auto simp: pruneMemoriesForBranch_def)

lemma hasInvalidMessageId_iff:
  "hasInvalidMessageId L m \<longleftrightarrow> (\<exists>ids. message_ids m = Some ids \<and> (\<exists>i\<in>set ids. int L \<le> i))"
  by (cases "message_ids m") (auto simp: hasInvalidMessageId_def list_ex_iff)

lemma hasInvalidMessageId_fun:
  "hasInvalidMessageId L =
     (\<lambda>m. \<exists>ids. message_ids m = Some ids \<and> (\<exists>i\<in>set ids. int L \<le> i))"
  by (rule ext) (rule hasInvalidMessageId_iff)

lemma isBeyond_iff: "isBeyond L v \<longleftrightarrow> (\<exists>n. v = JNumber n \<and> int L \<le> n)"
  by (cases v) (auto simp: isBeyond_def)

lemma isBeyond_fun: "isBeyond L = (\<lambda>v. \<exists>n. v = JNumber n \<and> int L \<le> n)"
  by (rule ext) (rule isBeyond_iff)

lemma keepHistoryEntry_iff:
  "keepHistoryEntry L h \<longleftrightarrow> \<not> (\<exists>n. message_id h = JNumber n \<and> int L \<le> n)"
  by (cases "message_id h") (auto simp: keepHistoryEntry_def)

lemma keepHistoryEntry_fun:
  "keepHistoryEntry L = (\<lambda>h. \<not> (\<exists>n. message_id h = JNumber n \<and> int L \<le> n))"
  by (rule ext) (rule keepHistoryEntry_iff)

lemma cleanKnownEvents_empty: "cleanKnownEvents {} st = (st, 0)"
  by (cases "known_events st") (simp_all add: cleanKnownEvents_def)

lemma known_events_cleanEmotion: "known_events (cleanEmotion L st) = known_events st"
  by (cases "emotion_from_messages st") (simp_all add: cleanEmotion_def)

lemma known_events_cleaned:
  "(case known_events (cleanEmotion L (fst (cleanKnownEvents P st))) of
      None \<Rightarrow> [] | Some events \<Rightarrow> events) =
   filter (\<lambda>e. e \<notin> P) (case known_events st of None \<Rightarrow> [] | Some events \<Rightarrow> events)"
  by (cases "known_events st")
     (simp_all add: known_events_cleanEmotion cleanKnownEvents_def Let_def)

lemma emotion_cleanKnownEvents:
  "emotion_from_messages (fst (cleanKnownEvents P st)) = emotion_from_messages st"
  by (cases "known_events st") (simp_all add: cleanKnownEvents_def Let_def)

lemma cleanEmotion_idem: "cleanEmotion L (cleanEmotion L st) = cleanEmotion L st"
  by (cases "emotion_from_messages st") (simp_all add: cleanEmotion_def)

lemma cleanEmotion_unchanged:
  "(\<forall>e. emotion_from_messages st = Some e \<longrightarrow> max_msg e < int L) \<Longrightarrow> cleanEmotion L st = st"
  by (cases "emotion_from_messages st") (simp_all add: cleanEmotion_def)

lemma not_isBeyond_resetValue: "0 < L \<Longrightarrow> \<not> isBeyond L (resetValue L)"
  by (simp add: isBeyond_def resetValue_def)

lemma last_updated_cleanHistory:
  "last_updated_message_id (cleanHistory L r) = last_updated_message_id r"
  by (cases "history r") (simp_all add: cleanHistory_def)

lemma history_cleanHistory:
  "history (cleanHistory L r) = map_option (filter (keepHistoryEntry L)) (history r)"
  by (cases "history r") (simp_all add: cleanHistory_def)

lemma cleanHistory_idem: "cleanHistory L (cleanHistory L r) = cleanHistory L r"
  by (cases "history r") (simp_all add: cleanHistory_def)

lemma cleanHistory_unchanged:
  "(\<forall>hs. history r = Some hs \<longrightarrow> (\<forall>h\<in>set hs. \<forall>n. message_id h = JNumber n \<longrightarrow> n < int L))
     \<Longrightarrow> cleanHistory L r = r"
proof (cases "history r")
  case None
  then show ?thesis by (simp add: cleanHistory_def)
next
  case (Some hs)
  assume "\<forall>hs. history r = Some hs \<longrightarrow> (\<forall>h\<in>set hs. \<forall>n. message_id h = JNumber n \<longrightarrow> n < int L)"
  with Some have "\<forall>h\<in>set hs. keepHistoryEntry L h"
    by (auto simp: keepHistoryEntry_iff)
  then have "filter (keepHistoryEntry L) hs = hs" by (simp add: filter_id_conv)
  with Some show ?thesis by (simp add: cleanHistory_def)
qed

lemma cleanRelationship_stable:
  "0 < L \<Longrightarrow> \<not> isBeyond L (last_updated_message_id (cleanHistory L
             (if isBeyond L (last_updated_message_id r)
              then r\<lparr>last_updated_message_id := resetValue L\<rparr> else r)))"
  by (simp add: last_updated_cleanHistory not_isBeyond_resetValue)

lemma cursor_changed_iff:
  "0 < L \<Longrightarrow>
   last_updated_message_id (cleanHistory L
       (if isBeyond L (last_updated_message_id r)
        then r\<lparr>last_updated_message_id := resetValue L\<rparr> else r)) \<noteq> last_updated_message_id r
   \<longleftrightarrow> isBeyond L (last_updated_message_id r)"
  by (auto simp: last_updated_cleanHistory isBeyond_iff resetValue_def)

lemma zip_map_self: "zip xs (map f xs) = map (\<lambda>x. (x, f x)) xs"
  by (induction xs) simp_all

lemma no_invalid_after_filter:
  "filter (hasInvalidMessageId L) (filter (\<lambda>m. \<not> hasInvalidMessageId L m) ms) = []"
  by (induction ms) auto

lemma map_snd_unchanged:
  "(\<forall>(k, v)\<in>set xs. f v = v) \<Longrightarrow> map (\<lambda>(k, v). (k, f v)) xs = xs"
  by (induction xs) auto

lemmas ex_defs = mem_a_def mem_b_def mem_c_def mem_d_def mem_e_def

lemmas pass_defs = pruneMemoriesForBranch_def hasInvalidMessageId_def cleanKnownEvents_def
  cleanEmotion_def isBeyond_def resetValue_def cleanHistory_def keepHistoryEntry_def Let_def

subsection \<open>Memory scan\<close>

text \<open>
  C1. Past the short-circuit (chat length at least 1, at least one memory), the memories
  left in the store are the old ones without those that have some entry of \<open>message_ids\<close>
  at or beyond the chat length, in their old order; the report counts the memories taken
  out; a memory with \<open>message_ids = [0, 5]\<close> is gone at chat length 5.
\<close>

theorem memory_scan_prunes_exactly:
  assumes "1 \<le> L" and "memories S = Some ms" and "ms \<noteq> []"
  shows "memories (snd (pruneMemoriesForBranch L S)) =
           Some (filter (\<lambda>m. \<not> (\<exists>ids. message_ids m = Some ids \<and> (\<exists>i\<in>set ids. int L \<le> i))) ms)
         \<and> prunedMemories (fst (pruneMemoriesForBranch L S)) =
           length (filter (\<lambda>m. \<exists>ids. message_ids m = Some ids \<and> (\<exists>i\<in>set ids. int L \<le> i)) ms)
         \<and> (L = 5 \<longrightarrow> (\<forall>m\<in>set ms. message_ids m = Some [0, 5] \<longrightarrow>
               (\<forall>ms'. memories (snd (pruneMemoriesForBranch L S)) = Some ms' \<longrightarrow> m \<notin> set ms')))"
proof -
  have "0 < L" using assms(1) by simp
  note u = prune_unfold [OF this assms(2,3)]
  show ?thesis
    unfolding u by (simp add: hasInvalidMessageId_fun)
qed

theorem memory_scan_prunes_exactly_witness:
  "memories store_ids = Some [mem_a, mem_c, mem_d]
   \<and> memories (snd (pruneMemoriesForBranch 5 store_ids)) = Some [mem_a, mem_d]
   \<and> prunedMemories (fst (pruneMemoriesForBranch 5 store_ids)) = 1
   \<and> message_ids mem_c = Some [0, 5]"
  using memory_scan_prunes_exactly [of 5 store_ids "[mem_a, mem_c, mem_d]"]
  by (simp add: store_ids_def ex_defs)

subsection \<open>Idempotence\<close>

text \<open>A store the pass has been through is a fixed point of the pass.\<close>

lemma prune_fixed_point:
  assumes "0 < L" "memories S = Some ms" "ms \<noteq> []"
  shows "pruneMemoriesForBranch L (snd (pruneMemoriesForBranch L S)) =
           (zero_report, snd (pruneMemoriesForBranch L S))"
proof (cases "filter (\<lambda>m. \<not> hasInvalidMessageId L m) ms = []")
  case True
  then have "memories (snd (pruneMemoriesForBranch L S)) = Some []"
    by (simp add: prune_unfold [OF assms])
  then show ?thesis by (simp add: prune_short_circuit)
next
  case False
  let ?S' = "snd (pruneMemoriesForBranch L S)"
  have m': "memories ?S' = Some (filter (\<lambda>m. \<not> hasInvalidMessageId L m) ms)"
    by (simp add: prune_unfold [OF assms])
  have rels: "filter (\<lambda>(k, r). isBeyond L (last_updated_message_id r))
                (map (\<lambda>(k, r). (k, cleanHistory L
                   (if isBeyond L (last_updated_message_id r)
                    then r\<lparr>last_updated_message_id := resetValue L\<rparr> else r))) rs) = []" for rs
    using assms(1) by (induction rs) (simp_all add: case_prod_unfold cleanRelationship_stable)
  show ?thesis
    unfolding prune_unfold [OF assms(1) m' False]
    unfolding prune_unfold [OF assms]
    using assms(1)
    by (cases "characters S"; cases "relationships S")
       (auto simp: zero_report_def no_invalid_after_filter cleanKnownEvents_empty
          cleanEmotion_idem cleanHistory_idem last_updated_cleanHistory not_isBeyond_resetValue
          rels comp_def case_prod_unfold
          intro!: store.equality)
qed

text \<open>
  C2. Idempotence: on the store a first call leaves behind, a second call with the same chat
  length returns the zero report and leaves that store as it is, for every store and every
  chat length.
\<close>

theorem prune_idempotent:
  "pruneMemoriesForBranch L (snd (pruneMemoriesForBranch L S)) =
     (zero_report, snd (pruneMemoriesForBranch L S))"
proof (cases "L = 0 \<or> memories S = None \<or> memories S = Some []")
  case True
  then show ?thesis by (simp add: prune_short_circuit)
next
  case False
  then obtain ms where "0 < L" "memories S = Some ms" "ms \<noteq> []" by auto
  then show ?thesis by (rule prune_fixed_point)
qed

theorem prune_idempotent_witness:
  "pruneMemoriesForBranch 3 (snd (pruneMemoriesForBranch 3 store_scenario)) =
     (zero_report,
      \<lparr>memories = Some [mem_a],
       characters = Some [(''Alice'',
         \<lparr>known_events = Some [''a''],
          emotion_from_messages = Some \<lparr>min_msg = 1, max_msg = 2\<rparr>\<rparr>)],
       relationships = Some [(''Alice-Bob'',
         \<lparr>last_updated_message_id = JNumber 2,
          history = Some [\<lparr>message_id = JNumber 1\<rparr>]\<rparr>)],
       last_processed_message_id = JNumber 2\<rparr>)"
proof -
  have "snd (pruneMemoriesForBranch 3 store_scenario) =
      \<lparr>memories = Some [mem_a],
       characters = Some [(''Alice'',
         \<lparr>known_events = Some [''a''],
          emotion_from_messages = Some \<lparr>min_msg = 1, max_msg = 2\<rparr>\<rparr>)],
       relationships = Some [(''Alice-Bob'',
         \<lparr>last_updated_message_id = JNumber 2,
          history = Some [\<lparr>message_id = JNumber 1\<rparr>]\<rparr>)],
       last_processed_message_id = JNumber 2\<rparr>"
    by (simp add: pruneMemoriesForBranch_def store_scenario_def ex_defs hasInvalidMessageId_def
          cleanKnownEvents_def cleanEmotion_def isBeyond_def resetValue_def cleanHistory_def
          keepHistoryEntry_def Let_def)
  with prune_idempotent [of 3 store_scenario] show ?thesis by simp
qed

subsection \<open>Cursor clamp\<close>

text \<open>
  C3. Cursor clamp. The claim as stated fails: at chat length 0, and at chat length 4 on a
  store without memories, the early return at lines 117--120 leaves a cursor of 10 at 10.
\<close>

theorem cursor_clamp_counterexample:
  "last_processed_message_id store_cursor = JNumber 10
   \<and> last_processed_message_id (snd (pruneMemoriesForBranch 0 store_cursor)) = JNumber 10
   \<and> last_processed_message_id (snd (pruneMemoriesForBranch 0 store_cursor)) \<noteq> JNumber (- 1)
   \<and> last_processed_message_id store_no_memories = JNumber 10
   \<and> last_processed_message_id (snd (pruneMemoriesForBranch 4 store_no_memories)) = JNumber 10
   \<and> last_processed_message_id (snd (pruneMemoriesForBranch 4 store_no_memories)) \<noteq> JNumber 3"
  by (simp add: pass_defs store_cursor_def store_no_memories_def ex_defs)

text \<open>
  C3, amended. Past the short-circuit (chat length at least 1, at least one memory), a
  numeric cursor at or beyond the chat length is reset to the chat length minus 1, so 10
  becomes 3 at chat length 4; when the chat is empty, the cursor stays as it was.
\<close>

theorem cursor_clamp_guarded:
  "(1 \<le> L \<and> memories S = Some ms \<and> ms \<noteq> [] \<and>
      last_processed_message_id S = JNumber n \<and> int L \<le> n
      \<longrightarrow> last_processed_message_id (snd (pruneMemoriesForBranch L S)) = JNumber (int L - 1))
   \<and> (L = 0
      \<longrightarrow> last_processed_message_id (snd (pruneMemoriesForBranch L S)) =
            last_processed_message_id S)"
proof (intro conjI impI)
  assume a: "1 \<le> L \<and> memories S = Some ms \<and> ms \<noteq> [] \<and>
      last_processed_message_id S = JNumber n \<and> int L \<le> n"
  then have "0 < L" by simp
  from prune_unfold [OF this] a
  show "last_processed_message_id (snd (pruneMemoriesForBranch L S)) = JNumber (int L - 1)"
    by (simp add: isBeyond_def resetValue_def)
next
  assume "L = 0"
  then show "last_processed_message_id (snd (pruneMemoriesForBranch L S)) =
            last_processed_message_id S"
    by (simp add: prune_short_circuit)
qed

theorem cursor_clamp_guarded_witness:
  "last_processed_message_id store_cursor = JNumber 10
   \<and> last_processed_message_id (snd (pruneMemoriesForBranch 4 store_cursor)) = JNumber 3
   \<and> last_processed_message_id (snd (pruneMemoriesForBranch 0 store_cursor)) = JNumber 10"
  using cursor_clamp_guarded [of 4 store_cursor "[mem_a]" 10]
        cursor_clamp_guarded [of 0 store_cursor "[mem_a]" 10]
  by (simp add: store_cursor_def)

subsection \<open>The zero report\<close>

text \<open>
  C4. The claim as stated fails: the report has no counter for a clamped emotion range, a
  filtered history or a reset cursor, so a call can return the zero report and still have
  changed all three.
\<close>

theorem zero_report_counterexample:
  "fst (pruneMemoriesForBranch 2 store_uncounted) = zero_report
   \<and> snd (pruneMemoriesForBranch 2 store_uncounted) \<noteq> store_uncounted
   \<and> snd (pruneMemoriesForBranch 2 store_uncounted) =
       \<lparr>memories = Some [mem_a],
        characters = Some [(''Alice'',
          \<lparr>known_events = Some [''a''],
           emotion_from_messages = Some \<lparr>min_msg = 0, max_msg = 1\<rparr>\<rparr>)],
        relationships = Some [(''Alice-Bob'',
          \<lparr>last_updated_message_id = JNumber 1, history = Some []\<rparr>)],
        last_processed_message_id = JNumber 1\<rparr>"
  by (simp add: pass_defs store_uncounted_def zero_report_def ex_defs)

text \<open>What a zero report says about a store past the short-circuit.\<close>

lemma zero_report_unfold:
  assumes "0 < L" "memories S = Some ms" "ms \<noteq> []"
    and z: "fst (pruneMemoriesForBranch L S) = zero_report"
  shows "snd (pruneMemoriesForBranch L S) =
      S\<lparr>characters := map_option (map (\<lambda>(k, st). (k, cleanEmotion L st))) (characters S),
        relationships := map_option (map (\<lambda>(k, r). (k, cleanHistory L r))) (relationships S),
        last_processed_message_id :=
          (if isBeyond L (last_processed_message_id S) then resetValue L
           else last_processed_message_id S)\<rparr>"
proof -
  note u = prune_unfold [OF assms(1-3)]
  from z have n0: "length (filter (hasInvalidMessageId L) ms) = 0"
    by (simp add: u zero_report_def)
  then have valid: "filter (\<lambda>m. \<not> hasInvalidMessageId L m) ms = ms"
    by (rule filter_valid_unchanged)
  from n0 have ids: "{m \<in> set ms. hasInvalidMessageId L m} = {}"
    by (auto simp: filter_empty_conv)
  have rels: "map (\<lambda>(k, r). (k, cleanHistory L
             (if isBeyond L (last_updated_message_id r)
              then r\<lparr>last_updated_message_id := resetValue L\<rparr> else r))) rs =
        map (\<lambda>(k, r). (k, cleanHistory L r)) rs"
    if "relationships S = Some rs" for rs
  proof -
    from z that have "filter (\<lambda>(k, r). isBeyond L (last_updated_message_id r)) rs = []"
      by (simp add: u zero_report_def)
    then have "\<forall>(k, r)\<in>set rs. \<not> isBeyond L (last_updated_message_id r)"
      by (auto simp: filter_empty_conv)
    then show ?thesis by (auto intro!: map_cong)
  qed
  show ?thesis
    by (cases "characters S"; cases "relationships S")
       (simp_all add: u valid ids cleanKnownEvents_empty rels assms(2) [symmetric])
qed

text \<open>
  C4, amended. A call that returns the zero report has left the memories, the
  \<open>known_events\<close> of every character and the \<open>last_updated_message_id\<close> of every
  relationship as they were; the whole store is as it was when, in addition, no emotion range
  has its \<open>max\<close> at or beyond the chat length, no history entry has a numeric \<open>message_id\<close>
  at or beyond it, and the cursor is not a number at or beyond it.
\<close>

theorem zero_report_frame:
  assumes z: "fst (pruneMemoriesForBranch L S) = zero_report"
  shows "memories (snd (pruneMemoriesForBranch L S)) = memories S
     \<and> map_option (map (\<lambda>(k, st). (k, known_events st)))
         (characters (snd (pruneMemoriesForBranch L S))) =
       map_option (map (\<lambda>(k, st). (k, known_events st))) (characters S)
     \<and> map_option (map (\<lambda>(k, r). (k, last_updated_message_id r)))
         (relationships (snd (pruneMemoriesForBranch L S))) =
       map_option (map (\<lambda>(k, r). (k, last_updated_message_id r))) (relationships S)
     \<and> ((\<forall>cs. characters S = Some cs \<longrightarrow>
           (\<forall>(k, st)\<in>set cs. \<forall>e. emotion_from_messages st = Some e \<longrightarrow> max_msg e < int L))
         \<and> (\<forall>rs. relationships S = Some rs \<longrightarrow>
           (\<forall>(k, r)\<in>set rs. \<forall>hs. history r = Some hs \<longrightarrow>
              (\<forall>h\<in>set hs. \<forall>n. message_id h = JNumber n \<longrightarrow> n < int L)))
         \<and> (\<forall>n. last_processed_message_id S = JNumber n \<longrightarrow> n < int L)
         \<longrightarrow> snd (pruneMemoriesForBranch L S) = S)"
proof (cases "L = 0 \<or> memories S = None \<or> memories S = Some []")
  case True
  then show ?thesis by (simp add: prune_short_circuit)
next
  case False
  then obtain ms where g: "0 < L" "memories S = Some ms" "ms \<noteq> []" by auto
  note zu = zero_report_unfold [OF g z]
  have c1: "memories (snd (pruneMemoriesForBranch L S)) = memories S"
    by (simp add: zu)
  have c2: "map_option (map (\<lambda>(k, st). (k, known_events st)))
         (characters (snd (pruneMemoriesForBranch L S))) =
       map_option (map (\<lambda>(k, st). (k, known_events st))) (characters S)"
    by (cases "characters S")
       (simp_all add: zu comp_def case_prod_unfold known_events_cleanEmotion)
  have c3: "map_option (map (\<lambda>(k, r). (k, last_updated_message_id r)))
         (relationships (snd (pruneMemoriesForBranch L S))) =
       map_option (map (\<lambda>(k, r). (k, last_updated_message_id r))) (relationships S)"
    by (cases "relationships S")
       (simp_all add: zu comp_def case_prod_unfold last_updated_cleanHistory)
  have c4: "snd (pruneMemoriesForBranch L S) = S"
    if e: "\<forall>cs. characters S = Some cs \<longrightarrow>
           (\<forall>(k, st)\<in>set cs. \<forall>e. emotion_from_messages st = Some e \<longrightarrow> max_msg e < int L)"
    and h: "\<forall>rs. relationships S = Some rs \<longrightarrow>
           (\<forall>(k, r)\<in>set rs. \<forall>hs. history r = Some hs \<longrightarrow>
              (\<forall>h\<in>set hs. \<forall>n. message_id h = JNumber n \<longrightarrow> n < int L))"
    and p: "\<forall>n. last_processed_message_id S = JNumber n \<longrightarrow> n < int L"
  proof -
    have cs: "map_option (map (\<lambda>(k, st). (k, cleanEmotion L st))) (characters S) = characters S"
    proof (cases "characters S")
      case None then show ?thesis by simp
    next
      case (Some cs)
      with e have "\<forall>(k, st)\<in>set cs. cleanEmotion L st = st"
        by (auto intro!: cleanEmotion_unchanged)
      then show ?thesis using Some by (simp add: map_snd_unchanged)
    qed
    have rs: "map_option (map (\<lambda>(k, r). (k, cleanHistory L r))) (relationships S) = relationships S"
    proof (cases "relationships S")
      case None then show ?thesis by simp
    next
      case (Some rs)
      with h have "\<forall>(k, r)\<in>set rs. cleanHistory L r = r"
        by (auto intro!: cleanHistory_unchanged)
      then show ?thesis using Some by (simp add: map_snd_unchanged)
    qed
    from p have lp: "\<not> isBeyond L (last_processed_message_id S)"
      by (auto simp: isBeyond_iff)
    show ?thesis by (simp add: zu cs rs lp)
  qed
  from c1 c2 c3 c4 show ?thesis by blast
qed

theorem zero_report_frame_witness:
  "fst (pruneMemoriesForBranch 2 store_settled) = zero_report
   \<and> snd (pruneMemoriesForBranch 2 store_settled) = store_settled
   \<and> fst (pruneMemoriesForBranch 2 store_uncounted) = zero_report
   \<and> memories (snd (pruneMemoriesForBranch 2 store_uncounted)) = memories store_uncounted"
proof -
  have z1: "fst (pruneMemoriesForBranch 2 store_settled) = zero_report"
    by (simp add: pass_defs store_settled_def zero_report_def ex_defs)
  have z2: "fst (pruneMemoriesForBranch 2 store_uncounted) = zero_report"
    by (simp add: pass_defs store_uncounted_def zero_report_def ex_defs)
  have "snd (pruneMemoriesForBranch 2 store_settled) = store_settled"
    using zero_report_frame [OF z1] by (simp add: store_settled_def)
  moreover have "memories (snd (pruneMemoriesForBranch 2 store_uncounted)) = memories store_uncounted"
    using zero_report_frame [OF z2] by simp
  ultimately show ?thesis using z1 z2 by simp
qed

subsection \<open>References to memories\<close>

text \<open>
  C5. The claim as stated fails: the pass removes from \<open>known_events\<close> the ids of the
  memories it prunes and nothing else, so an id that no memory carried before the call is
  still there after it.
\<close>

theorem dangling_reference_counterexample:
  "knownEventIds (snd (pruneMemoriesForBranch 2 store_dangling)) = [''a'', ''x'']
   \<and> memoryIds (snd (pruneMemoriesForBranch 2 store_dangling)) = [''a'']
   \<and> \<not> set (knownEventIds (snd (pruneMemoriesForBranch 2 store_dangling)))
         \<subseteq> set (memoryIds (snd (pruneMemoriesForBranch 2 store_dangling)))"
  by (simp add: pass_defs store_dangling_def ex_defs knownEventIds_def memoryIds_def)

lemma knownEventIds_after:
  assumes "0 < L" "memories S = Some ms" "ms \<noteq> []"
  shows "knownEventIds (snd (pruneMemoriesForBranch L S)) =
           filter (\<lambda>e. e \<notin> memory_id ` {m \<in> set ms. hasInvalidMessageId L m}) (knownEventIds S)"
proof (cases "characters S")
  case None
  then show ?thesis by (simp add: prune_unfold [OF assms] knownEventIds_def)
next
  case (Some cs)
  have "concat (map (\<lambda>(charName, state).
                 case known_events state of None \<Rightarrow> [] | Some events \<Rightarrow> events)
            (map (\<lambda>(k, st). (k, cleanEmotion L (fst (cleanKnownEvents P st)))) xs)) =
        filter (\<lambda>e. e \<notin> P) (concat (map (\<lambda>(charName, state).
                 case known_events state of None \<Rightarrow> [] | Some events \<Rightarrow> events) xs))" for xs P
    by (induction xs) (auto simp: known_events_cleaned)
  with Some show ?thesis by (simp add: prune_unfold [OF assms] knownEventIds_def)
qed

lemma memoryIds_after:
  assumes "0 < L" "memories S = Some ms" "ms \<noteq> []"
  shows "memoryIds (snd (pruneMemoriesForBranch L S)) =
           map memory_id (filter (\<lambda>m. \<not> hasInvalidMessageId L m) ms)"
  by (simp add: prune_unfold [OF assms] memoryIds_def)

text \<open>
  C5, amended. Past the short-circuit, no \<open>known_events\<close> holds the id of a memory the call
  pruned; and if every id in \<open>known_events\<close> was the id of a memory before the call, every id
  in \<open>known_events\<close> is the id of a remaining memory after it. Nothing else is removed: the
  character states keep their names and order, and each \<open>known_events\<close> is the old list
  without the ids of the pruned memories, so an id that no memory carried before the call is
  still in it.
\<close>

theorem known_events_integrity_preserved:
  assumes "1 \<le> L" and "memories S = Some ms" and "ms \<noteq> []"
  shows "set (knownEventIds (snd (pruneMemoriesForBranch L S))) \<inter>
           memory_id ` {m \<in> set ms. \<exists>ids. message_ids m = Some ids \<and> (\<exists>i\<in>set ids. int L \<le> i)} = {}
         \<and> (set (knownEventIds S) \<subseteq> set (memoryIds S) \<longrightarrow>
              set (knownEventIds (snd (pruneMemoriesForBranch L S)))
                \<subseteq> set (memoryIds (snd (pruneMemoriesForBranch L S))))
         \<and> map_option (map (\<lambda>(k, st). (k, known_events st)))
               (characters (snd (pruneMemoriesForBranch L S))) =
             map_option (map (\<lambda>(k, st). (k, map_option (filter (\<lambda>e. e \<notin> memory_id `
                 {m \<in> set ms. \<exists>ids. message_ids m = Some ids \<and> (\<exists>i\<in>set ids. int L \<le> i)}))
                 (known_events st)))) (characters S)"
proof -
  have g: "0 < L" using assms(1) by simp
  note k = knownEventIds_after [OF g assms(2,3)]
  note m = memoryIds_after [OF g assms(2,3)]
  have ids: "memoryIds S = map memory_id ms" using assms(2) by (simp add: memoryIds_def)
  have p1: "set (knownEventIds (snd (pruneMemoriesForBranch L S))) \<inter>
           memory_id ` {m \<in> set ms. \<exists>ids. message_ids m = Some ids \<and> (\<exists>i\<in>set ids. int L \<le> i)} = {}"
    unfolding k by (auto simp: hasInvalidMessageId_iff)
  have p2: "set (knownEventIds (snd (pruneMemoriesForBranch L S)))
                \<subseteq> set (memoryIds (snd (pruneMemoriesForBranch L S)))"
    if "set (knownEventIds S) \<subseteq> set (memoryIds S)"
    using that unfolding k m ids by auto
  have ke: "known_events (cleanEmotion L (fst (cleanKnownEvents P st))) =
              map_option (filter (\<lambda>e. e \<notin> P)) (known_events st)" for P st
    by (cases "known_events st")
       (simp_all add: known_events_cleanEmotion cleanKnownEvents_def Let_def)
  have p3: "map_option (map (\<lambda>(k, st). (k, known_events st)))
               (characters (snd (pruneMemoriesForBranch L S))) =
             map_option (map (\<lambda>(k, st). (k, map_option (filter (\<lambda>e. e \<notin> memory_id `
                 {m \<in> set ms. \<exists>ids. message_ids m = Some ids \<and> (\<exists>i\<in>set ids. int L \<le> i)}))
                 (known_events st)))) (characters S)"
    by (cases "characters S")
       (simp_all add: prune_unfold [OF g assms(2,3)] comp_def case_prod_unfold ke
          hasInvalidMessageId_fun)
  from p1 p2 p3 show ?thesis by blast
qed

theorem known_events_integrity_preserved_witness:
  "map_option (map (\<lambda>(k, st). (k, known_events st)))
      (characters (snd (pruneMemoriesForBranch 3 store_mixed))) =
     Some [(''Alice'', Some [''x'', ''a'']), (''Bob'', None)]
   \<and> set (knownEventIds store_scenario) \<subseteq> set (memoryIds store_scenario)
   \<and> set (knownEventIds (snd (pruneMemoriesForBranch 3 store_scenario)))
        \<subseteq> set (memoryIds (snd (pruneMemoriesForBranch 3 store_scenario)))"
proof -
  have pruned: "memory_id ` {m \<in> set [mem_a, mem_b].
                   \<exists>ids. message_ids m = Some ids \<and> (\<exists>i\<in>set ids. int 3 \<le> i)} = {''b''}"
    unfolding set_filter [symmetric] by (simp add: ex_defs)
  have m: "memories store_mixed = Some [mem_a, mem_b]"
    by (simp add: store_mixed_def)
  have "map_option (map (\<lambda>(k, st). (k, known_events st)))
      (characters (snd (pruneMemoriesForBranch 3 store_mixed))) =
     Some [(''Alice'', Some [''x'', ''a'']), (''Bob'', None)]"
    using known_events_integrity_preserved [OF _ m, of 3, unfolded pruned]
    by (simp add: store_mixed_def)
  moreover have h: "set (knownEventIds store_scenario) \<subseteq> set (memoryIds store_scenario)"
    by (simp add: knownEventIds_def memoryIds_def store_scenario_def ex_defs)
  moreover have "set (knownEventIds (snd (pruneMemoriesForBranch 3 store_scenario)))
        \<subseteq> set (memoryIds (snd (pruneMemoriesForBranch 3 store_scenario)))"
    using h known_events_integrity_preserved [of 3 store_scenario "[mem_a, mem_b]"]
    by (simp add: store_scenario_def)
  ultimately show ?thesis by simp
qed

subsection \<open>Emotion ranges\<close>

text \<open>
  C6. Emotion range, two tiers. Past the short-circuit the character states keep their
  names and order, and a state whose \<open>emotion_from_messages\<close> has \<open>max\<close> at or beyond the
  chat length loses the field when \<open>min\<close> is at or beyond it too, and otherwise keeps \<open>min\<close>
  and gets \<open>max\<close> set to the chat length minus 1.
\<close>

theorem emotion_two_tier:
  assumes "1 \<le> L" and "memories S = Some ms" and "ms \<noteq> []" and "characters S = Some cs"
  shows "\<exists>cs'. characters (snd (pruneMemoriesForBranch L S)) = Some cs'
           \<and> map fst cs' = map fst cs
           \<and> (\<forall>i<length cs. \<forall>e.
                 emotion_from_messages (snd (cs ! i)) = Some e \<and> int L \<le> max_msg e \<longrightarrow>
                 emotion_from_messages (snd (cs' ! i)) =
                   (if int L \<le> min_msg e then None
                    else Some \<lparr>min_msg = min_msg e, max_msg = int L - 1\<rparr>))"
proof -
  have g: "0 < L" using assms(1) by simp
  let ?f = "\<lambda>(k, st). (k, cleanEmotion L (fst (cleanKnownEvents
               (memory_id ` {m \<in> set ms. hasInvalidMessageId L m}) st)))"
  have c: "characters (snd (pruneMemoriesForBranch L S)) = Some (map ?f cs)"
    using assms(4) by (simp add: prune_unfold [OF g assms(2,3)])
  have k: "map fst (map ?f cs) = map fst cs"
    by (simp add: comp_def case_prod_unfold)
  have e: "emotion_from_messages (snd (map ?f cs ! i)) =
             (if int L \<le> min_msg e then None
              else Some \<lparr>min_msg = min_msg e, max_msg = int L - 1\<rparr>)"
    if "i < length cs" "emotion_from_messages (snd (cs ! i)) = Some e" "int L \<le> max_msg e"
    for i e
    using that
    by (simp add: case_prod_unfold cleanEmotion_def emotion_cleanKnownEvents)
  from c k e show ?thesis by blast
qed

theorem emotion_two_tier_witness:
  "\<exists>cs'. characters (snd (pruneMemoriesForBranch 5 store_emotions)) = Some cs'
      \<and> map fst cs' = [''Alice'', ''Bob'']
      \<and> emotion_from_messages (snd (cs' ! 0)) = Some \<lparr>min_msg = 3, max_msg = 4\<rparr>
      \<and> emotion_from_messages (snd (cs' ! 1)) = None"
proof -
  let ?alice = "\<lparr>known_events = None,
                 emotion_from_messages = Some \<lparr>min_msg = 3, max_msg = 7\<rparr>\<rparr>"
  let ?bob = "\<lparr>known_events = None,
               emotion_from_messages = Some \<lparr>min_msg = 6, max_msg = 7\<rparr>\<rparr>"
  let ?cs = "[(''Alice'', ?alice), (''Bob'', ?bob)]"
  have "\<exists>cs'. characters (snd (pruneMemoriesForBranch 5 store_emotions)) = Some cs'
           \<and> map fst cs' = map fst ?cs
           \<and> (\<forall>i<length ?cs. \<forall>e.
                 emotion_from_messages (snd (?cs ! i)) = Some e \<and> int 5 \<le> max_msg e \<longrightarrow>
                 emotion_from_messages (snd (cs' ! i)) =
                   (if int 5 \<le> min_msg e then None
                    else Some \<lparr>min_msg = min_msg e, max_msg = int 5 - 1\<rparr>))"
    by (rule emotion_two_tier [of 5 store_emotions "[mem_a]"])
       (simp_all add: store_emotions_def)
  then obtain cs' where c: "characters (snd (pruneMemoriesForBranch 5 store_emotions)) = Some cs'"
    and k: "map fst cs' = map fst ?cs"
    and e: "\<And>i e. i < length ?cs \<Longrightarrow>
                 emotion_from_messages (snd (?cs ! i)) = Some e \<and> int 5 \<le> max_msg e \<Longrightarrow>
                 emotion_from_messages (snd (cs' ! i)) =
                   (if int 5 \<le> min_msg e then None
                    else Some \<lparr>min_msg = min_msg e, max_msg = int 5 - 1\<rparr>)"
    by blast
  have "emotion_from_messages (snd (cs' ! 0)) = Some \<lparr>min_msg = 3, max_msg = 4\<rparr>"
    using e [of 0 "\<lparr>min_msg = 3, max_msg = 7\<rparr>"] by simp
  moreover have "emotion_from_messages (snd (cs' ! 1)) = None"
    using e [of 1 "\<lparr>min_msg = 6, max_msg = 7\<rparr>"] by simp
  ultimately show ?thesis using c k by simp
qed

subsection \<open>Short-circuit\<close>

text \<open>
  C7. Short-circuit: when the chat is empty or the store has no memories (the field absent
  or the empty array), the call returns the zero report and the store as it was.
\<close>

theorem short_circuit_unchanged:
  "chatLength = 0 \<or> memories data = None \<or> memories data = Some []
     \<Longrightarrow> pruneMemoriesForBranch chatLength data = (zero_report, data)"
  by (auto simp: pruneMemoriesForBranch_def)

theorem short_circuit_unchanged_witness:
  "pruneMemoriesForBranch 0 store_scenario = (zero_report, store_scenario)
   \<and> pruneMemoriesForBranch 4 store_no_memories = (zero_report, store_no_memories)"
  using short_circuit_unchanged [of 0 store_scenario]
        short_circuit_unchanged [of 4 store_no_memories]
  by (simp add: store_no_memories_def)

subsection \<open>Relationship histories\<close>

text \<open>
  C8. Relationship history. A call keeps the relationships' keys and order, and keeps every
  history entry whose \<open>message_id\<close> is not a number, at every chat length. Past the
  short-circuit, each history is the old one without the entries whose \<open>message_id\<close> is a
  number at or beyond the chat length (an entry at the chat length minus 1 stays), and
  \<open>prunedRelationships\<close> is the number of relationships whose \<open>last_updated_message_id\<close> was
  a number at or beyond the chat length, whatever the histories lost. Those relationships are
  the ones the call resets: such a cursor is the chat length minus 1 afterwards, every other
  cursor is as it was, and \<open>prunedRelationships\<close> is the number of relationships whose cursor
  after the call differs from the one before.
\<close>

theorem history_filter_rule:
  assumes "relationships S = Some rs"
  shows "\<exists>rs'. relationships (snd (pruneMemoriesForBranch L S)) = Some rs'
           \<and> map fst rs' = map fst rs
           \<and> (\<forall>i<length rs.
                 map_option (filter (\<lambda>h. \<forall>n. message_id h \<noteq> JNumber n)) (history (snd (rs' ! i))) =
                 map_option (filter (\<lambda>h. \<forall>n. message_id h \<noteq> JNumber n)) (history (snd (rs ! i))))
           \<and> (1 \<le> L \<and> (\<exists>ms. memories S = Some ms \<and> ms \<noteq> []) \<longrightarrow>
                (\<forall>i<length rs.
                   history (snd (rs' ! i)) =
                     map_option (filter (\<lambda>h. \<not> (\<exists>n. message_id h = JNumber n \<and> int L \<le> n)))
                       (history (snd (rs ! i))))
                \<and> prunedRelationships (fst (pruneMemoriesForBranch L S)) =
                    length (filter (\<lambda>(k, r). \<exists>n. last_updated_message_id r = JNumber n \<and> int L \<le> n) rs)
                \<and> (\<forall>i<length rs.
                   last_updated_message_id (snd (rs' ! i)) =
                     (if \<exists>n. last_updated_message_id (snd (rs ! i)) = JNumber n \<and> int L \<le> n
                      then JNumber (int L - 1)
                      else last_updated_message_id (snd (rs ! i))))
                \<and> prunedRelationships (fst (pruneMemoriesForBranch L S)) =
                    length (filter (\<lambda>(old, new).
                        last_updated_message_id (snd new) \<noteq> last_updated_message_id (snd old))
                      (zip rs rs')))"
proof (cases "L = 0 \<or> memories S = None \<or> memories S = Some []")
  case True
  then have "pruneMemoriesForBranch L S = (zero_report, S)" by (rule prune_short_circuit)
  moreover from True have "\<not> (1 \<le> L \<and> (\<exists>ms. memories S = Some ms \<and> ms \<noteq> []))" by auto
  ultimately show ?thesis using assms by auto
next
  case False
  then obtain ms where g: "0 < L" "memories S = Some ms" "ms \<noteq> []" by auto
  let ?f = "\<lambda>(k, r). (k, cleanHistory L
             (if isBeyond L (last_updated_message_id r)
              then r\<lparr>last_updated_message_id := resetValue L\<rparr> else r))"
  note u = prune_unfold [OF g]
  have r: "relationships (snd (pruneMemoriesForBranch L S)) = Some (map ?f rs)"
    using assms by (simp add: u)
  have k: "map fst (map ?f rs) = map fst rs"
    by (simp add: comp_def case_prod_unfold)
  have h: "history (snd (map ?f rs ! i)) =
             map_option (filter (\<lambda>h. \<not> (\<exists>n. message_id h = JNumber n \<and> int L \<le> n)))
               (history (snd (rs ! i)))" if "i < length rs" for i
    using that by (simp add: case_prod_unfold history_cleanHistory keepHistoryEntry_fun)
  have nn: "map_option (filter (\<lambda>h. \<forall>n. message_id h \<noteq> JNumber n)) (history (snd (map ?f rs ! i))) =
            map_option (filter (\<lambda>h. \<forall>n. message_id h \<noteq> JNumber n)) (history (snd (rs ! i)))"
    if "i < length rs" for i
    unfolding h [OF that]
    by (cases "history (snd (rs ! i))") (auto intro!: filter_cong)
  have c: "prunedRelationships (fst (pruneMemoriesForBranch L S)) =
             length (filter (\<lambda>(k, r). \<exists>n. last_updated_message_id r = JNumber n \<and> int L \<le> n) rs)"
    using assms by (simp add: u isBeyond_fun)
  have lu: "last_updated_message_id (snd (map ?f rs ! i)) =
              (if \<exists>n. last_updated_message_id (snd (rs ! i)) = JNumber n \<and> int L \<le> n
               then JNumber (int L - 1)
               else last_updated_message_id (snd (rs ! i)))" if "i < length rs" for i
    using that g(1)
    by (auto simp: case_prod_unfold last_updated_cleanHistory isBeyond_iff resetValue_def)
  have z: "prunedRelationships (fst (pruneMemoriesForBranch L S)) =
             length (filter (\<lambda>(old, new).
                 last_updated_message_id (snd new) \<noteq> last_updated_message_id (snd old))
               (zip rs (map ?f rs)))"
    using assms g(1)
    by (simp add: u zip_map_self filter_map comp_def case_prod_unfold cursor_changed_iff)
  from r k h nn c lu z show ?thesis by blast
qed

theorem history_filter_rule_witness:
  "\<exists>rs'. relationships (snd (pruneMemoriesForBranch 3 store_history)) = Some rs'
      \<and> map fst rs' = [''Alice-Bob'', ''Bob-Eve'']
      \<and> history (snd (rs' ! 0)) =
          Some [\<lparr>message_id = JNumber 2\<rparr>, \<lparr>message_id = JUndefined\<rparr>,
                \<lparr>message_id = JString ''7''\<rparr>]
      \<and> history (snd (rs' ! 1)) = None
      \<and> last_updated_message_id (snd (rs' ! 0)) = JNumber 2
      \<and> last_updated_message_id (snd (rs' ! 1)) = JNumber 2
      \<and> prunedRelationships (fst (pruneMemoriesForBranch 3 store_history)) = 1"
proof -
  let ?ab = "\<lparr>last_updated_message_id = JNumber 2,
              history = Some [\<lparr>message_id = JNumber 2\<rparr>, \<lparr>message_id = JNumber 3\<rparr>,
                              \<lparr>message_id = JUndefined\<rparr>, \<lparr>message_id = JString ''7''\<rparr>]\<rparr>"
  let ?be = "\<lparr>last_updated_message_id = JNumber 3, history = None\<rparr>"
  let ?rs = "[(''Alice-Bob'', ?ab), (''Bob-Eve'', ?be)]"
  have r: "relationships store_history = Some ?rs"
    by (simp add: store_history_def)
  have m: "1 \<le> (3::nat) \<and> (\<exists>ms. memories store_history = Some ms \<and> ms \<noteq> [])"
    by (simp add: store_history_def)
  from history_filter_rule [OF r, of 3] m
  obtain rs' where
    a: "relationships (snd (pruneMemoriesForBranch 3 store_history)) = Some rs'"
    and k: "map fst rs' = map fst ?rs"
    and h: "\<And>i. i < length ?rs \<Longrightarrow> history (snd (rs' ! i)) =
              map_option (filter (\<lambda>h. \<not> (\<exists>n. message_id h = JNumber n \<and> int 3 \<le> n)))
                (history (snd (?rs ! i)))"
    and lu: "\<And>i. i < length ?rs \<Longrightarrow> last_updated_message_id (snd (rs' ! i)) =
              (if \<exists>n. last_updated_message_id (snd (?rs ! i)) = JNumber n \<and> int 3 \<le> n
               then JNumber (int 3 - 1)
               else last_updated_message_id (snd (?rs ! i)))"
    and c: "prunedRelationships (fst (pruneMemoriesForBranch 3 store_history)) =
              length (filter (\<lambda>(old, new).
                  last_updated_message_id (snd new) \<noteq> last_updated_message_id (snd old))
                (zip ?rs rs'))"
    by blast
  have h0: "history (snd (rs' ! 0)) =
          Some [\<lparr>message_id = JNumber 2\<rparr>, \<lparr>message_id = JUndefined\<rparr>,
                \<lparr>message_id = JString ''7''\<rparr>]"
    using h [of 0] by simp
  have h1: "history (snd (rs' ! 1)) = None"
    using h [of 1] by simp
  have l0: "last_updated_message_id (snd (rs' ! 0)) = JNumber 2"
    using lu [of 0] by simp
  have l1: "last_updated_message_id (snd (rs' ! 1)) = JNumber 2"
    using lu [of 1] by simp
  from k obtain x y where rs': "rs' = [x, y]"
    by (cases rs'; cases "tl rs'"; cases "tl (tl rs')") auto
  have "prunedRelationships (fst (pruneMemoriesForBranch 3 store_history)) = 1"
    using c l0 l1 by (simp add: rs')
  with a k h0 h1 l0 l1 show ?thesis by simp
qed

subsection \<open>No stale index remains\<close>

text \<open>
  C9. Past the short-circuit no stale message index is left in the store: every entry of
  \<open>message_ids\<close> of every remaining memory, the \<open>max\<close> of every remaining emotion range,
  every numeric \<open>last_updated_message_id\<close>, every numeric \<open>message_id\<close> of every remaining
  history entry and the cursor, when it is a number, are below the chat length.
\<close>

theorem no_stale_index_remains:
  assumes "1 \<le> L" and "memories S = Some ms" and "ms \<noteq> []"
  shows "(\<forall>ms'. memories (snd (pruneMemoriesForBranch L S)) = Some ms' \<longrightarrow>
            (\<forall>m\<in>set ms'. \<forall>ids. message_ids m = Some ids \<longrightarrow> (\<forall>i\<in>set ids. i < int L)))
       \<and> (\<forall>cs'. characters (snd (pruneMemoriesForBranch L S)) = Some cs' \<longrightarrow>
            (\<forall>(k, st)\<in>set cs'. \<forall>e. emotion_from_messages st = Some e \<longrightarrow> max_msg e < int L))
       \<and> (\<forall>rs'. relationships (snd (pruneMemoriesForBranch L S)) = Some rs' \<longrightarrow>
            (\<forall>(k, r)\<in>set rs'.
               (\<forall>n. last_updated_message_id r = JNumber n \<longrightarrow> n < int L)
               \<and> (\<forall>hs. history r = Some hs \<longrightarrow>
                    (\<forall>h\<in>set hs. \<forall>n. message_id h = JNumber n \<longrightarrow> n < int L))))
       \<and> (\<forall>n. last_processed_message_id (snd (pruneMemoriesForBranch L S)) = JNumber n
              \<longrightarrow> n < int L)"
proof -
  have g: "0 < L" using assms(1) by simp
  note u = prune_unfold [OF g assms(2,3)]
  have p1: "\<forall>ms'. memories (snd (pruneMemoriesForBranch L S)) = Some ms' \<longrightarrow>
            (\<forall>m\<in>set ms'. \<forall>ids. message_ids m = Some ids \<longrightarrow> (\<forall>i\<in>set ids. i < int L))"
    by (fastforce simp: u hasInvalidMessageId_iff not_le)
  have em: "max_msg e < int L"
    if "emotion_from_messages (cleanEmotion L st) = Some e" for st e
    using that g
    by (cases "emotion_from_messages st") (auto simp: cleanEmotion_def split: if_splits)
  have p2: "\<forall>cs'. characters (snd (pruneMemoriesForBranch L S)) = Some cs' \<longrightarrow>
            (\<forall>(k, st)\<in>set cs'. \<forall>e. emotion_from_messages st = Some e \<longrightarrow> max_msg e < int L)"
    by (cases "characters S") (auto simp: u dest: em)
  have lu: "n < int L"
    if "last_updated_message_id (cleanHistory L
             (if isBeyond L (last_updated_message_id r)
              then r\<lparr>last_updated_message_id := resetValue L\<rparr> else r)) = JNumber n" for r n
    using that g
    by (auto simp: last_updated_cleanHistory isBeyond_iff resetValue_def split: if_splits)
  have hi: "n < int L"
    if "history (cleanHistory L r) = Some hs" "h \<in> set hs" "message_id h = JNumber n"
    for r hs h n
    using that by (cases "history r") (auto simp: cleanHistory_def keepHistoryEntry_iff)
  have p3: "\<forall>rs'. relationships (snd (pruneMemoriesForBranch L S)) = Some rs' \<longrightarrow>
            (\<forall>(k, r)\<in>set rs'.
               (\<forall>n. last_updated_message_id r = JNumber n \<longrightarrow> n < int L)
               \<and> (\<forall>hs. history r = Some hs \<longrightarrow>
                    (\<forall>h\<in>set hs. \<forall>n. message_id h = JNumber n \<longrightarrow> n < int L)))"
    by (cases "relationships S") (auto simp: u dest: lu hi)
  have p4: "\<forall>n. last_processed_message_id (snd (pruneMemoriesForBranch L S)) = JNumber n
              \<longrightarrow> n < int L"
    using g by (auto simp: u isBeyond_iff resetValue_def split: if_splits)
  from p1 p2 p3 p4 show ?thesis by blast
qed

theorem no_stale_index_remains_witness:
  "memories store_scenario = Some [mem_a, mem_b]
   \<and> (\<exists>n. last_processed_message_id (snd (pruneMemoriesForBranch 3 store_scenario)) = JNumber n
          \<and> n < 3)
   \<and> snd (pruneMemoriesForBranch 3 store_scenario) =
      \<lparr>memories = Some [mem_a],
       characters = Some [(''Alice'',
         \<lparr>known_events = Some [''a''],
          emotion_from_messages = Some \<lparr>min_msg = 1, max_msg = 2\<rparr>\<rparr>)],
       relationships = Some [(''Alice-Bob'',
         \<lparr>last_updated_message_id = JNumber 2,
          history = Some [\<lparr>message_id = JNumber 1\<rparr>]\<rparr>)],
       last_processed_message_id = JNumber 2\<rparr>"
proof -
  have s: "snd (pruneMemoriesForBranch 3 store_scenario) =
      \<lparr>memories = Some [mem_a],
       characters = Some [(''Alice'',
         \<lparr>known_events = Some [''a''],
          emotion_from_messages = Some \<lparr>min_msg = 1, max_msg = 2\<rparr>\<rparr>)],
       relationships = Some [(''Alice-Bob'',
         \<lparr>last_updated_message_id = JNumber 2,
          history = Some [\<lparr>message_id = JNumber 1\<rparr>]\<rparr>)],
       last_processed_message_id = JNumber 2\<rparr>"
    by (simp add: pass_defs store_scenario_def ex_defs)
  have m: "memories store_scenario = Some [mem_a, mem_b]"
    by (simp add: store_scenario_def)
  have "\<forall>n. last_processed_message_id (snd (pruneMemoriesForBranch 3 store_scenario)) = JNumber n
              \<longrightarrow> n < int 3"
    using no_stale_index_remains [of 3 store_scenario "[mem_a, mem_b]"] m by simp
  then have "\<exists>n. last_processed_message_id (snd (pruneMemoriesForBranch 3 store_scenario)) = JNumber n
          \<and> n < 3"
    by (simp add: s)
  with m s show ?thesis by simp
qed

subsection \<open>Memories without message ids\<close>

text \<open>
  C10. A memory without \<open>message_ids\<close>, or with the empty list, stays: past the
  short-circuit it is in the store after the call, at its place among the memories that
  remain, and the count of pruned memories is the count over the other memories.
\<close>

theorem memory_without_ids_kept:
  assumes "1 \<le> L" and "message_ids m = None \<or> message_ids m = Some []"
    and "memories S = Some (xs @ m # ys)"
  shows "memories (snd (pruneMemoriesForBranch L S)) =
           Some (filter (\<lambda>m. \<not> (\<exists>ids. message_ids m = Some ids \<and> (\<exists>i\<in>set ids. int L \<le> i))) xs
                 @ m #
                 filter (\<lambda>m. \<not> (\<exists>ids. message_ids m = Some ids \<and> (\<exists>i\<in>set ids. int L \<le> i))) ys)
         \<and> prunedMemories (fst (pruneMemoriesForBranch L S)) =
             length (filter (\<lambda>m. \<exists>ids. message_ids m = Some ids \<and> (\<exists>i\<in>set ids. int L \<le> i)) xs)
             + length (filter (\<lambda>m. \<exists>ids. message_ids m = Some ids \<and> (\<exists>i\<in>set ids. int L \<le> i)) ys)"
proof -
  have g: "0 < L" using assms(1) by simp
  have ne: "xs @ m # ys \<noteq> []" by simp
  note u = prune_unfold [OF g assms(3) ne]
  from assms(2) have v: "\<not> (\<exists>ids. message_ids m = Some ids \<and> (\<exists>i\<in>set ids. int L \<le> i))"
    by auto
  show ?thesis
    unfolding u using v by (simp add: hasInvalidMessageId_fun)
qed

theorem memory_without_ids_kept_witness:
  "memories store_no_ids = Some ([mem_c] @ mem_d # [mem_e])
   \<and> message_ids mem_d = None \<and> message_ids mem_e = Some []
   \<and> memories (snd (pruneMemoriesForBranch 5 store_no_ids)) = Some [mem_d, mem_e]
   \<and> prunedMemories (fst (pruneMemoriesForBranch 5 store_no_ids)) = 1"
proof -
  have m: "memories store_no_ids = Some ([mem_c] @ mem_d # [mem_e])"
    by (simp add: store_no_ids_def)
  have d: "message_ids mem_d = None \<or> message_ids mem_d = Some []"
    by (simp add: mem_d_def)
  from memory_without_ids_kept [OF _ d m, of 5]
  show ?thesis by (simp add: ex_defs store_no_ids_def)
qed

end
